theory Spec2Isabelle
  imports Main
begin

section \<open>Interview screen entries (src/models/InterviewScreenEntry.ts)\<close>

text \<open>
  The interface \<open>InterviewScreenEntry\<close> of the model file: seven read-only string fields.
  The field \<open>id\<close> is written \<open>ise_id\<close> (\<open>id\<close> is the identity function of HOL), and the
  other fields carry the same prefix.
\<close>

record InterviewScreenEntry =
  ise_id :: string
  ise_name :: string
  ise_prompt :: string
  ise_responseId :: string
  ise_responseType :: string
  ise_screenId :: string
  ise_text :: string

text \<open>
  \<open>getEntryById(entryId, entries)\<close>: the parameter \<open>entries\<close> has type
  \<open>InterviewScreenEntry[] | null\<close>, so the list is an option (\<open>None\<close> is \<open>null\<close>), and so is
  the result. The \<open>for ... of\<close> loop with its early \<open>return\<close> is the recursion
  \<open>getEntryByIdLoop\<close>; falling out of the loop returns \<open>null\<close>.
\<close>

fun getEntryByIdLoop :: "string \<Rightarrow> InterviewScreenEntry list \<Rightarrow> InterviewScreenEntry option" where
  "getEntryByIdLoop entryId [] = None"
| "getEntryByIdLoop entryId (entry # rest) =
     (if ise_id entry = entryId then Some entry else getEntryByIdLoop entryId rest)"

definition getEntryById ::
  "string \<Rightarrow> InterviewScreenEntry list option \<Rightarrow> InterviewScreenEntry option" where
  "getEntryById entryId entries =
     (case entries of
        None \<Rightarrow> None
      | Some es \<Rightarrow> getEntryByIdLoop entryId es)"

section \<open>Interview serialisation (models/Interview)\<close>

text \<open>
  \<open>LANGUAGE_DELIMITER\<close> is the one-character string \<open>';'\<close>. Strings are lists of
  characters; the two library functions the serialisers call are written out:
  \<open>Array.prototype.join\<close> (the empty array gives the empty string, the separator stands
  between consecutive elements only) and \<open>String.prototype.split\<close> with a one-character
  separator (every occurrence of the separator ends a piece, and the rest of the string after
  the last occurrence is the last piece, so the empty string gives one empty piece).
\<close>

definition LANGUAGE_DELIMITER :: char where
  "LANGUAGE_DELIMITER = CHR '';''"

fun join :: "char \<Rightarrow> string list \<Rightarrow> string" where
  "join sep [] = []"
| "join sep [x] = x"
| "join sep (x # y # ys) = x @ sep # join sep (y # ys)"

fun splitFrom :: "char \<Rightarrow> string \<Rightarrow> string \<Rightarrow> string list" where
  "splitFrom sep piece [] = [rev piece]"
| "splitFrom sep piece (c # cs) =
     (if c = sep then rev piece # splitFrom sep [] cs
      else splitFrom sep (c # piece) cs)"

definition split :: "char \<Rightarrow> string \<Rightarrow> string list" where
  "split sep s = splitFrom sep [] s"

text \<open>
  The type \<open>InterviewCreate\<close> (\<open>Interview\<close> without \<open>id\<close> and \<open>createdDate\<close>) and its
  serialised form, which differs in \<open>allowedLanguages\<close> only: a list of language codes on
  the frontend, one delimited string on the wire. \<open>serialize\<close> is the branch
  \<open>{...interview, allowedLanguages: interview.allowedLanguages.join(LANGUAGE_DELIMITER)}\<close>,
  \<open>deserialize\<close> the expression
  \<open>{...rawObj, allowedLanguages: rawObj.allowedLanguages.split(LANGUAGE_DELIMITER)}\<close>. Both
  branches of either function treat \<open>allowedLanguages\<close> with this same expression; the
  fields \<open>name\<close> and \<open>notes\<close> are written \<open>interviewName\<close> and \<open>interviewNotes\<close>; the
  fields the other branch converts besides (\<open>createdDate\<close>, the nested actions and settings)
  belong to other modules and are left out of the records.
\<close>

record Interview =
  allowedLanguages :: "string list"
  defaultLanguage :: string
  description :: string
  interviewName :: string
  interviewNotes :: string
  ownerId :: string
  published :: bool
  vanityUrl :: "string option"

record SerializedInterview =
  ser_allowedLanguages :: string
  ser_defaultLanguage :: string
  ser_description :: string
  ser_name :: string
  ser_notes :: string
  ser_ownerId :: string
  ser_published :: bool
  ser_vanityUrl :: "string option"

definition serialize :: "Interview \<Rightarrow> SerializedInterview" where
  "serialize interview =
     \<lparr> ser_allowedLanguages = join LANGUAGE_DELIMITER (allowedLanguages interview),
       ser_defaultLanguage = defaultLanguage interview,
       ser_description = description interview,
       ser_name = interviewName interview,
       ser_notes = interviewNotes interview,
       ser_ownerId = ownerId interview,
       ser_published = published interview,
       ser_vanityUrl = vanityUrl interview \<rparr>"

definition deserialize :: "SerializedInterview \<Rightarrow> Interview" where
  "deserialize rawObj =
     \<lparr> allowedLanguages = split LANGUAGE_DELIMITER (ser_allowedLanguages rawObj),
       defaultLanguage = ser_defaultLanguage rawObj,
       description = ser_description rawObj,
       interviewName = ser_name rawObj,
       interviewNotes = ser_notes rawObj,
       ownerId = ser_ownerId rawObj,
       published = ser_published rawObj,
       vanityUrl = ser_vanityUrl rawObj \<rparr>"

text \<open>The interview that \<open>create\<close> returns, with a caller's values filled in.\<close>

definition newInterview :: "string list \<Rightarrow> Interview" where
  "newInterview langs =
     \<lparr> allowedLanguages = langs, defaultLanguage = ''en'', description = ''d'',
       interviewName = ''n'', interviewNotes = [], ownerId = ''o'', published = False, vanityUrl = None \<rparr>"

section \<open>Running an interview to completion (components/InterviewRunnerView)\<close>

subsection \<open>Entries, responses and submission actions\<close>

text \<open>
  The runner works on the entry type of the current models: an entry has an \<open>id\<close> (written
  \<open>e_id\<close>), a \<open>responseKey\<close>, a \<open>responseType\<close> and \<open>responseTypeOptions\<close>. The enum
  \<open>ResponseType\<close> is declared in a module that is not among the sources; the runner
  names its member \<open>AIRTABLE\<close>, and every other member is a tag \<open>OtherResponseType\<close>. The
  options of an Airtable entry are those the field selector destructures: \<open>selectedBase\<close>,
  \<open>selectedTable\<close>, \<open>selectedFields\<close>; the runner reads them under the test
  \<open>responseType === AIRTABLE\<close> only.
\<close>

datatype ResponseType = AIRTABLE | OtherResponseType string

record AirtableOptions =
  selectedBase :: string
  selectedTable :: string
  selectedFields :: "string list"

record Entry =
  e_id :: string
  responseKey :: string
  responseType :: ResponseType
  responseTypeOptions :: AirtableOptions

text \<open>
  \<open>ResponseData\<close> is the object \<open>{[responseKey]: {entry, response}}\<close>. It is the list of
  its properties in the order of \<open>Object.keys\<close>; \<open>responseData[k]\<close> is \<open>map_of\<close>. The
  type \<open>'v\<close> of an answer is left open: the runner hands answers to \<open>getResponseValue\<close>
  only.
\<close>

record 'v ResponseDatum =
  entry :: Entry
  response :: 'v

type_synonym 'v ResponseData = "(string \<times> 'v ResponseDatum) list"

text \<open>
  The submission action types live in \<open>models/SubmissionAction/types\<close>, which is not among
  the sources; their shape is read off the runner and \<open>SubmissionAction.create\<close>. The enum
  \<open>SpecialValueType\<close> has the one member \<open>NOW_DATE\<close>: the \<open>switch\<close> of
  \<open>getSpecialValueForSubmission\<close> handles this member and passes the value to
  \<open>assertUnreachable\<close> in its \<open>default\<close> branch, which type-checks only when no member
  is left. The field \<open>entryId\<close> of an \<open>EDIT_ROW\<close> payload is written \<open>payloadEntryId\<close>,
  to keep it apart from the \<open>entryId\<close> of a lookup configuration; \<open>id\<close> and \<open>order\<close> of
  an action are \<open>actionId\<close> and \<open>actionOrder\<close>. \<open>fieldMappings\<close> is a JavaScript
  \<open>Map\<close>: the list of its entries in insertion order, the order in which \<open>forEach\<close>
  visits them.
\<close>

datatype SpecialValueType = NOW_DATE

record EntryResponseLookupConfig =
  entryId :: "string option"
  responseFieldKey :: "string option"
  specialValueType :: "SpecialValueType option"

record EditRowPayload =
  payloadEntryId :: string
  primaryKeyField :: string

record InsertRowPayload =
  baseTarget :: string
  tableTarget :: string

datatype ActionConfig = EDIT_ROW EditRowPayload | INSERT_ROW InsertRowPayload

record SubmissionAction =
  actionId :: string
  actionOrder :: int
  interviewId :: string
  config :: ActionConfig
  fieldMappings :: "(string \<times> EntryResponseLookupConfig) list"

text \<open>
  A screen, as \<open>getStartingScreens\<close> and the store read it: its \<open>id\<close> (written \<open>s_id\<close>),
  the ids of its entries and of its conditional actions (\<open>entries\<close> and \<open>actions\<close> in the
  source), and the two starting-state fields; \<open>startingStateOrder\<close> is optional. An
  interview with its screens and actions extends the interview metadata.
\<close>

record InterviewScreen =
  s_id :: string
  screenEntries :: "string list"
  screenActions :: "string list"
  isInStartingState :: bool
  startingStateOrder :: "int option"

record InterviewWithScreensAndActions = Interview +
  screens :: "InterviewScreen list"
  submissionActions :: "SubmissionAction list"

subsection \<open>What the runner takes from its environment\<close>

text \<open>
  \<open>ConfigurableScript.getResponseValue\<close> is not among the sources: it is a parameter, a
  function from the response data, a response key and an optional field key to
  \<open>string | undefined\<close>. \<open>new Date()\<close> reads the clock: \<open>currentTime\<close> is the instant it
  shows, in milliseconds since the epoch, and \<open>toISOString\<close> is the method of \<open>Date\<close>.
\<close>

record 'v Runtime =
  getResponseValue :: "'v ResponseData \<Rightarrow> string \<Rightarrow> string option \<Rightarrow> string option"
  currentTime :: int
  toISOString :: "int \<Rightarrow> string"

text \<open>
  A value of type \<open>string | undefined\<close> in a condition (\<open>if (entryId)\<close>,
  \<open>if (airtableRecordId)\<close>) counts as true when it is defined and not the empty string;
  \<open>truthyString\<close> returns the string in that case.
\<close>

definition truthyString :: "string option \<Rightarrow> string option" where
  "truthyString x = (case x of None \<Rightarrow> None | Some s \<Rightarrow> if s = [] then None else Some s)"

text \<open>
  \<open>getSpecialValueForSubmission\<close>. The \<open>default\<close> branch calls \<open>assertUnreachable\<close> on a
  value of type \<open>never\<close>: no member of the enum reaches it.
\<close>

fun getSpecialValueForSubmission :: "'v Runtime \<Rightarrow> SpecialValueType \<Rightarrow> string" where
  "getSpecialValueForSubmission rt NOW_DATE = toISOString rt (currentTime rt)"

subsection \<open>onInterviewComplete\<close>

text \<open>
  \<open>allEntries\<close>: the \<open>Map\<close> from entry id to entry that the \<open>reduce\<close> over
  \<open>Object.keys(responseData)\<close> builds; \<open>map.set\<close> replaces an earlier entry of the same id.
\<close>

definition allEntries :: "'v ResponseData \<Rightarrow> (string \<rightharpoonup> Entry)" where
  "allEntries responseData =
     fold (\<lambda>responseKey m.
             case map_of responseData responseKey of
               None \<Rightarrow> m
             | Some datum \<Rightarrow> m(e_id (entry datum) \<mapsto> entry datum))
          (map fst responseData) Map.empty"

text \<open>
  The body of the callback given to \<open>fieldMappings.forEach\<close>, up to the value it computes:
  \<open>responseValue\<close> starts as the empty string; with a true \<open>entryId\<close> it is the response
  value of that entry if the entry is in \<open>allEntries\<close> (\<open>?? ''\<close> turns \<open>undefined\<close> into the
  empty string); otherwise, with a \<open>specialValueType\<close>, it is the special value.
\<close>

definition resolveResponseValue ::
  "'v Runtime \<Rightarrow> 'v ResponseData \<Rightarrow> (string \<rightharpoonup> Entry) \<Rightarrow> EntryResponseLookupConfig \<Rightarrow> string" where
  "resolveResponseValue rt responseData es entryLookupConfig =
     (case truthyString (entryId entryLookupConfig) of
        Some eid \<Rightarrow>
          (case es eid of
             None \<Rightarrow> []
           | Some e \<Rightarrow>
               (case getResponseValue rt responseData (responseKey e)
                       (responseFieldKey entryLookupConfig) of
                  None \<Rightarrow> []
                | Some v \<Rightarrow> v))
      | None \<Rightarrow>
          (case specialValueType entryLookupConfig of
             Some t \<Rightarrow> getSpecialValueForSubmission rt t
           | None \<Rightarrow> []))"

text \<open>
  The object \<open>fields\<close> starts as the literal \<open>{}\<close>. It is the map of its own properties,
  from property name to value; the order in which an object lists its properties is not
  part of the model. The assignment \<open>fields[fieldId] = responseValue\<close> adds the property or
  replaces its value, for every name but one: \<open>__proto__\<close> is an accessor that the object
  inherits from \<open>Object.prototype\<close>, and its setter ignores a value that is neither an
  object nor \<open>null\<close>, so assigning a string under that name leaves the object as it was.
\<close>

definition assignProperty ::
  "string \<Rightarrow> string \<Rightarrow> (string \<rightharpoonup> string) \<Rightarrow> (string \<rightharpoonup> string)" where
  "assignProperty key v obj = (if key = ''__proto__'' then obj else obj(key \<mapsto> v))"

text \<open>
  The loop that fills \<open>fields\<close>, which the source writes twice, word for word, once per
  action type.
\<close>

definition collectFields ::
  "'v Runtime \<Rightarrow> 'v ResponseData \<Rightarrow> (string \<rightharpoonup> Entry)
     \<Rightarrow> (string \<times> EntryResponseLookupConfig) list \<Rightarrow> (string \<rightharpoonup> string)" where
  "collectFields rt responseData es mappings =
     fold (\<lambda>(fieldId, entryLookupConfig) fields.
             let responseValue = resolveResponseValue rt responseData es entryLookupConfig
             in if responseValue \<noteq> [] then assignProperty fieldId responseValue fields
                else fields)
          mappings Map.empty"

text \<open>
  A call of one of the two mutations, with the variables it is given (\<open>fields\<close> is
  written \<open>fieldsSent\<close>). The mutations pass them on to
  \<open>api.airtable.updateAirtableRecord\<close> and \<open>api.airtable.createAirtableRecord\<close>. Each
  mutation comes from a \<open>useMutation\<close> hook of its own: \<open>isUpdate\<close> tells which of the two
  hooks a call goes through.
\<close>

datatype SinkCall =
    AirtableUpdateRecord (baseId: string) (tableId: string) (recordId: string)
      (fieldsSent: "string \<rightharpoonup> string")
  | AirtableCreateRecord (baseId: string) (tableId: string)
      (fieldsSent: "string \<rightharpoonup> string")

fun isUpdate :: "SinkCall \<Rightarrow> bool" where
  "isUpdate (AirtableUpdateRecord b t r f) = True"
| "isUpdate (AirtableCreateRecord b t f) = False"

text \<open>
  One round of \<open>interview.submissionActions.forEach\<close>: the calls it makes, none or one.
  \<open>mutate\<close> returns at once, so the round does not see the outcome of its call.
\<close>

definition submitAction ::
  "'v Runtime \<Rightarrow> 'v ResponseData \<Rightarrow> (string \<rightharpoonup> Entry) \<Rightarrow> SubmissionAction \<Rightarrow> SinkCall list" where
  "submitAction rt responseData es submissionAction =
     (case config submissionAction of
        EDIT_ROW actionPayload \<Rightarrow>
          (case es (payloadEntryId actionPayload) of
             None \<Rightarrow> []
           | Some entryTarget \<Rightarrow>
               if responseType entryTarget = AIRTABLE then
                 (case truthyString
                         (getResponseValue rt responseData (responseKey entryTarget)
                            (Some (primaryKeyField actionPayload))) of
                    None \<Rightarrow> []
                  | Some airtableRecordId \<Rightarrow>
                      [AirtableUpdateRecord
                         (selectedBase (responseTypeOptions entryTarget))
                         (selectedTable (responseTypeOptions entryTarget))
                         airtableRecordId
                         (collectFields rt responseData es (fieldMappings submissionAction))])
               else [])
      | INSERT_ROW actionPayload \<Rightarrow>
          [AirtableCreateRecord (baseTarget actionPayload) (tableTarget actionPayload)
             (collectFields rt responseData es (fieldMappings submissionAction))])"

text \<open>
  \<open>onInterviewComplete\<close>: nothing happens while the interview is not loaded; otherwise the
  actions are visited in order, and the result is the list of the calls made.
\<close>

definition onInterviewComplete ::
  "'v Runtime \<Rightarrow> 'a InterviewWithScreensAndActions_scheme option \<Rightarrow> 'v ResponseData
     \<Rightarrow> SinkCall list" where
  "onInterviewComplete rt interview responseData =
     (case interview of
        None \<Rightarrow> []
      | Some i \<Rightarrow>
          fold (\<lambda>submissionAction issued.
                  issued @ submitAction rt responseData (allEntries responseData) submissionAction)
               (submissionActions i) [])"

text \<open>
  What follows a call. The handler \<open>onError\<close> given with every call raises a toast through
  \<open>raiseHTTPErrorToast\<close> (a hook that is not among the sources: a parameter, from the error
  to the message and the title shown) and stores the pair in \<open>errorOnComplete\<close>. The state
  of the component keeps the calls made, the toasts raised and \<open>errorOnComplete\<close>. The
  outcome of the call number \<open>k\<close> is \<open>outcome k\<close>: \<open>None\<close> when the call succeeds, the
  error when it fails.

  The handler is given to \<open>mutate\<close>, not to \<open>useMutation\<close>. The mutation library
  (\<open>@tanstack/react-query\<close>) keeps the options of \<open>mutate\<close> in the observer of the hook, and
  a new call of \<open>mutate\<close> on the same hook replaces them and detaches the observer from the
  call before: of consecutive calls on one hook, the handlers of the latest call only are
  run. The calls of a completion are all made by one \<open>forEach\<close>, before any outcome
  arrives. So the handler of a failed call runs exactly when no later call of the completion
  goes through the same hook (\<open>latestOnItsHook\<close>). The handlers run here in the order of the
  calls.
\<close>

record RunnerState =
  issued :: "SinkCall list"
  toasts :: "(string \<times> string) list"
  errorOnComplete :: "(string \<times> string) option"

definition onError :: "('e \<Rightarrow> string \<times> string) \<Rightarrow> 'e \<Rightarrow> RunnerState \<Rightarrow> RunnerState" where
  "onError raiseHTTPErrorToast error st =
     (let (errorMessage, errorTitle) = raiseHTTPErrorToast error
      in st\<lparr> toasts := toasts st @ [(errorTitle, errorMessage)],
             errorOnComplete := Some (errorMessage, errorTitle) \<rparr>)"

definition latestOnItsHook :: "SinkCall list \<Rightarrow> nat \<Rightarrow> bool" where
  "latestOnItsHook calls k =
     (k < length calls
      \<and> list_all (\<lambda>later. isUpdate later \<noteq> isUpdate (calls ! k)) (drop (Suc k) calls))"

definition settle ::
  "('e \<Rightarrow> string \<times> string) \<Rightarrow> (nat \<Rightarrow> 'e option) \<Rightarrow> SinkCall list \<Rightarrow> RunnerState
     \<Rightarrow> RunnerState" where
  "settle raiseHTTPErrorToast outcome calls st =
     fold (\<lambda>k s. case outcome k of
                    None \<Rightarrow> s
                  | Some error \<Rightarrow>
                      if latestOnItsHook calls k then onError raiseHTTPErrorToast error s
                      else s)
          [0 ..< length calls] st"

definition completeInterview ::
  "'v Runtime \<Rightarrow> ('e \<Rightarrow> string \<times> string) \<Rightarrow> (nat \<Rightarrow> 'e option)
     \<Rightarrow> 'a InterviewWithScreensAndActions_scheme option \<Rightarrow> 'v ResponseData
     \<Rightarrow> RunnerState \<Rightarrow> RunnerState" where
  "completeInterview rt raiseHTTPErrorToast outcome interview responseData st =
     (let calls = onInterviewComplete rt interview responseData
      in settle raiseHTTPErrorToast outcome calls (st\<lparr> issued := issued st @ calls \<rparr>))"

section \<open>Starting screens (models/Interview)\<close>

text \<open>
  \<open>getStartingScreens\<close>: the screens in the starting state that have a
  \<open>startingStateOrder\<close>, sorted with the comparator
  \<open>(scr2.startingStateOrder ?? 0) - (scr1.startingStateOrder ?? 0)\<close>, that is by falling
  order. \<open>filter\<close> returns a new array, so the interview's own array is not reordered;
  \<open>Array.prototype.sort\<close> is stable, as is \<open>sort_key\<close>. Orders are integers here.
\<close>

definition orderOrZero :: "InterviewScreen \<Rightarrow> int" where
  "orderOrZero scr = (case startingStateOrder scr of None \<Rightarrow> 0 | Some n \<Rightarrow> n)"

definition getStartingScreens ::
  "'a InterviewWithScreensAndActions_scheme \<Rightarrow> InterviewScreen list" where
  "getStartingScreens interview =
     (let startingScreens =
            filter (\<lambda>screen. isInStartingState screen \<and> startingStateOrder screen \<noteq> None)
              (screens interview);
          sortedScreens = sort_key (\<lambda>scr. - orderOrZero scr) startingScreens
      in sortedScreens)"

section \<open>The flow engine\<close>

text \<open>
  The engine that drives an interview is the package \<open>@dataclinic/interview\<close>, and the
  script it runs is \<open>script/ConfigurableScript\<close>; neither is among the sources, which hold
  their callers only. The definitions of this section follow the specification of the
  engine. They work on the screens, actions and response data defined above.
\<close>

text \<open>
  Modelled from the spec: the states of \<open>FlowResolver\<close>, "{screen ids}" together with
  \<open>INITIAL\<close> and \<open>TERMINAL\<close>; the target of a conditional action, "either goto screen X or
  end interview"; and the configuration errors, "no valid starting screen; a
  ConditionalAction/SubmissionAction references a non-existent entry/screen" (missing: the
  engine and \<open>ConfigurableScript\<close>, which would declare them).
\<close>

datatype FlowState = INITIAL | AtScreen string | TERMINAL

datatype ActionTarget = GotoScreen string | EndInterview

datatype ConfigurationError =
    NoStartingScreen
  | DanglingEntryReference string
  | DanglingScreenReference string

text \<open>
  Modelled from the spec: the condition of a \<open>ConditionalAction\<close> (the model
  \<open>models/ConditionalAction\<close> is missing), "a comparison against one Entry's recorded
  response value": the id of the entry, the operator and the value compared with. The
  operators are left open, as the type \<open>'op\<close>.
\<close>

record 'op Condition =
  conditionEntryId :: string
  operator :: 'op
  comparand :: string

text \<open>
  Modelled from the spec: a \<open>ConditionalAction\<close> (the model \<open>models/ConditionalAction\<close> is
  missing), with its id, the id of the screen that owns it, its condition and its target,
  "either goto screen X or end interview".
\<close>

record 'op ConditionalAction =
  ca_id :: string
  ca_screenId :: string
  condition :: "'op Condition"
  target :: ActionTarget

text \<open>
  Modelled from the spec: the lookup of "the referenced entry's recorded answer" by
  \<open>ConditionEvaluator\<close> (missing: it is part of \<open>ConfigurableScript\<close>). The accumulator is
  the response data, keyed by response key, each answer stored with its entry; the answer
  of an entry is the first one stored with an entry of that id.
\<close>

definition recordedAnswer :: "'v ResponseData \<Rightarrow> string \<Rightarrow> 'v ResponseDatum option" where
  "recordedAnswer acc eid = find (\<lambda>d. e_id (entry d) = eid) (map snd acc)"

text \<open>
  Modelled from the spec: \<open>ConditionEvaluator.matches\<close> (missing: part of
  \<open>ConfigurableScript\<close>). "Looks up the referenced entry's recorded answer; if unanswered,
  treated as non-match"; otherwise the comparison is that of the entry's response type, a
  capability \<open>comparison\<close> of the evaluator that is total.
\<close>

definition matches ::
  "(ResponseType \<Rightarrow> 'op \<Rightarrow> 'v \<Rightarrow> string \<Rightarrow> bool) \<Rightarrow> 'op Condition \<Rightarrow> 'v ResponseData \<Rightarrow> bool" where
  "matches comparison cond acc =
     (case recordedAnswer acc (conditionEntryId cond) of
        None \<Rightarrow> False
      | Some d \<Rightarrow> comparison (responseType (entry d)) (operator cond) (response d) (comparand cond))"

text \<open>
  Modelled from the spec: the conditional actions attached to a screen, in priority order
  (missing: part of \<open>ConfigurableScript\<close>). A screen lists the ids of its actions, "source
  order = priority"; an id with no action is passed over.
\<close>

definition actionsOfScreen ::
  "'op ConditionalAction list \<Rightarrow> InterviewScreen \<Rightarrow> 'op ConditionalAction list" where
  "actionsOfScreen actions S =
     List.map_filter (\<lambda>aid. find (\<lambda>a. ca_id a = aid) actions) (screenActions S)"

text \<open>
  Modelled from the spec: the default transition of \<open>FlowResolver\<close> (missing: part of
  \<open>ConfigurableScript\<close>), "the next screen in the screens' natural sequence after S
  (sequence defined by the order screens were supplied); if S is last in sequence,
  transition to TERMINAL". A screen that is not in the sequence has no successor either.
\<close>

fun sequenceAfter :: "InterviewScreen list \<Rightarrow> string \<Rightarrow> FlowState" where
  "sequenceAfter [] sid = TERMINAL"
| "sequenceAfter [x] sid = TERMINAL"
| "sequenceAfter (x # y # rest) sid =
     (if s_id x = sid then AtScreen (s_id y) else sequenceAfter (y # rest) sid)"

text \<open>
  Modelled from the spec: \<open>FlowResolver.next\<close> (missing: part of \<open>ConfigurableScript\<close>),
  written \<open>nextScreen\<close>. "Evaluate S's ConditionalActions in priority order against the
  accumulator; first match's target determines the transition (goto another screen id, or
  TERMINAL). If none match, fall back to the default".
\<close>

definition nextScreen ::
  "(ResponseType \<Rightarrow> 'op \<Rightarrow> 'v \<Rightarrow> string \<Rightarrow> bool) \<Rightarrow> InterviewScreen list
     \<Rightarrow> 'op ConditionalAction list \<Rightarrow> InterviewScreen \<Rightarrow> 'v ResponseData \<Rightarrow> FlowState" where
  "nextScreen comparison scrs actions S acc =
     (case find (\<lambda>a. matches comparison (condition a) acc) (actionsOfScreen actions S) of
        Some a \<Rightarrow> (case target a of GotoScreen sid \<Rightarrow> AtScreen sid | EndInterview \<Rightarrow> TERMINAL)
      | None \<Rightarrow> sequenceAfter scrs (s_id S))"

text \<open>
  Modelled from the spec: the transition from \<open>INITIAL\<close> (missing: \<open>ConfigurableScript\<close> and
  the engine, which decide what is done with the starting screens). "Among screens with
  isInStartingState = true, pick the one with the highest startingStateOrder; if none
  qualifies, fail with a configuration error": the first of the screens that
  \<open>getStartingScreens\<close> returns.
\<close>

definition selectInitialScreen ::
  "'a InterviewWithScreensAndActions_scheme \<Rightarrow> ConfigurationError + InterviewScreen" where
  "selectInitialScreen interview =
     (case getStartingScreens interview of
        [] \<Rightarrow> Inl NoStartingScreen
      | s # rest \<Rightarrow> Inr s)"

text \<open>
  Modelled from the spec: the entry ids that exist "in the supplied screen set", and the
  entry and screen ids that the actions refer to (missing: the validation of the engine's
  constructor). A conditional action refers to the entry of its condition, to its own
  screen and to the screen of a \<open>goto\<close>; a submission action refers to the entry of an
  \<open>EDIT_ROW\<close> payload and to the entry of every field mapping that has one.
\<close>

definition screenEntryIds :: "InterviewScreen list \<Rightarrow> string list" where
  "screenEntryIds scrs = concat (map screenEntries scrs)"

definition submissionEntryRefs :: "SubmissionAction \<Rightarrow> string list" where
  "submissionEntryRefs a =
     (case config a of EDIT_ROW p \<Rightarrow> [payloadEntryId p] | INSERT_ROW p \<Rightarrow> [])
     @ List.map_filter (\<lambda>(fieldId, cfg). truthyString (entryId cfg)) (fieldMappings a)"

definition referencedEntryIds ::
  "'op ConditionalAction list \<Rightarrow> SubmissionAction list \<Rightarrow> string list" where
  "referencedEntryIds actions subs =
     map (\<lambda>a. conditionEntryId (condition a)) actions @ concat (map submissionEntryRefs subs)"

definition referencedScreenIds :: "'op ConditionalAction list \<Rightarrow> string list" where
  "referencedScreenIds actions =
     concat (map (\<lambda>a. ca_screenId a #
                    (case target a of GotoScreen sid \<Rightarrow> [sid] | EndInterview \<Rightarrow> [])) actions)"

text \<open>
  Modelled from the spec: the engine and its construction (missing: the package
  \<open>@dataclinic/interview\<close> and \<open>ConfigurableScript\<close>). The engine holds the snapshot it was
  built with, the accumulator, the current state, and the screens it has asked the moderator
  to present. Construction fails with a configuration error when an action refers to an
  entry or a screen that does not exist, or when there is no starting screen; "the engine
  fails fast (construction-time error)".
\<close>

record ('op, 'v) Engine =
  engineScreens :: "InterviewScreen list"
  engineActions :: "'op ConditionalAction list"
  engineSubmissionActions :: "SubmissionAction list"
  initialScreen :: InterviewScreen
  accumulator :: "'v ResponseData"
  current :: FlowState
  presented :: "string list"

definition construct ::
  "'a InterviewWithScreensAndActions_scheme \<Rightarrow> 'op ConditionalAction list
     \<Rightarrow> ConfigurationError + ('op, 'v) Engine" where
  "construct interview actions =
     (case find (\<lambda>eid. eid \<notin> set (screenEntryIds (screens interview)))
             (referencedEntryIds actions (submissionActions interview)) of
        Some eid \<Rightarrow> Inl (DanglingEntryReference eid)
      | None \<Rightarrow>
          (case find (\<lambda>sid. sid \<notin> set (map s_id (screens interview)))
                  (referencedScreenIds actions) of
             Some sid \<Rightarrow> Inl (DanglingScreenReference sid)
           | None \<Rightarrow>
               (case selectInitialScreen interview of
                  Inl err \<Rightarrow> Inl err
                | Inr s \<Rightarrow>
                    Inr \<lparr> engineScreens = screens interview, engineActions = actions,
                          engineSubmissionActions = submissionActions interview,
                          initialScreen = s, accumulator = [], current = INITIAL,
                          presented = [] \<rparr>)))"

text \<open>
  Modelled from the spec: the start of a run (missing: the engine). "On start, FlowResolver
  selects the initial screen; engine asks Moderator to present it". A run is the
  construction followed by the start; \<open>presentedScreens\<close> reads the screens presented off
  the outcome of a run.
\<close>

definition start :: "('op, 'v) Engine \<Rightarrow> ('op, 'v) Engine" where
  "start eng =
     eng\<lparr> current := AtScreen (s_id (initialScreen eng)),
          presented := presented eng @ [s_id (initialScreen eng)] \<rparr>"

definition runInterview ::
  "'a InterviewWithScreensAndActions_scheme \<Rightarrow> 'op ConditionalAction list
     \<Rightarrow> ConfigurationError + ('op, 'v) Engine" where
  "runInterview interview actions =
     (case construct interview actions of
        Inl err \<Rightarrow> Inl err
      | Inr eng \<Rightarrow> Inr (start eng))"

definition presentedScreens :: "ConfigurationError + ('op, 'v) Engine \<Rightarrow> string list" where
  "presentedScreens outcome = (case outcome of Inl err \<Rightarrow> [] | Inr eng \<Rightarrow> presented eng)"

section \<open>Example values\<close>

text \<open>
  Concrete values for the checks at the end: a runtime whose \<open>getResponseValue\<close> returns the
  stored answer of a response key whatever the field key, a clock at the epoch, an Airtable
  entry with an answer, and actions that refer to it or to an entry without an answer.
\<close>

definition exampleRuntime :: "string Runtime" where
  "exampleRuntime =
     \<lparr> getResponseValue =
         (\<lambda>responseData key field.
            case map_of responseData key of None \<Rightarrow> None | Some d \<Rightarrow> Some (response d)),
       currentTime = 0,
       toISOString = (\<lambda>t. ''1970-01-01T00:00:00.000Z'') \<rparr>"

definition exampleAirtableEntry :: "string \<Rightarrow> string \<Rightarrow> Entry" where
  "exampleAirtableEntry i key =
     \<lparr> e_id = i, responseKey = key, responseType = AIRTABLE,
       responseTypeOptions =
         \<lparr> selectedBase = ''base1'', selectedTable = ''table1'', selectedFields = [] \<rparr> \<rparr>"

definition exampleResponseData :: "string ResponseData" where
  "exampleResponseData =
     [(''who'', \<lparr> entry = exampleAirtableEntry ''e1'' ''who'', response = ''rec1'' \<rparr>)]"

definition lookupEntry :: "string \<Rightarrow> EntryResponseLookupConfig" where
  "lookupEntry eid = \<lparr> entryId = Some eid, responseFieldKey = None, specialValueType = None \<rparr>"

definition lookupNow :: EntryResponseLookupConfig where
  "lookupNow = \<lparr> entryId = None, responseFieldKey = None, specialValueType = Some NOW_DATE \<rparr>"

definition exampleMappings :: "(string \<times> EntryResponseLookupConfig) list" where
  "exampleMappings =
     [(''fldName'', lookupEntry ''e1''), (''fldOther'', lookupEntry ''e9''),
      (''fldDate'', lookupNow)]"

definition exampleEdit :: "string \<Rightarrow> SubmissionAction" where
  "exampleEdit eid =
     \<lparr> actionId = ''a1'', actionOrder = 1, interviewId = ''i1'',
       config = EDIT_ROW \<lparr> payloadEntryId = eid, primaryKeyField = ''id'' \<rparr>,
       fieldMappings = exampleMappings \<rparr>"

definition exampleInsert :: SubmissionAction where
  "exampleInsert =
     \<lparr> actionId = ''a2'', actionOrder = 2, interviewId = ''i1'',
       config = INSERT_ROW \<lparr> baseTarget = ''base2'', tableTarget = ''table2'' \<rparr>,
       fieldMappings = exampleMappings \<rparr>"

text \<open>
  The same entry with a blank answer; a second insertion, into another table; and an
  insertion that maps the field \<open>__proto__\<close> as well.
\<close>

definition exampleBlankResponseData :: "string ResponseData" where
  "exampleBlankResponseData =
     [(''who'', \<lparr> entry = exampleAirtableEntry ''e1'' ''who'', response = [] \<rparr>)]"

definition exampleInsertOther :: SubmissionAction where
  "exampleInsertOther =
     \<lparr> actionId = ''a3'', actionOrder = 3, interviewId = ''i1'',
       config = INSERT_ROW \<lparr> baseTarget = ''base2'', tableTarget = ''table3'' \<rparr>,
       fieldMappings = [(''fldName'', lookupEntry ''e1'')] \<rparr>"


definition exampleScreen :: "string \<Rightarrow> bool \<Rightarrow> int option \<Rightarrow> InterviewScreen" where
  "exampleScreen i starting ord =
     \<lparr> s_id = i, screenEntries = [''e1''], screenActions = [''c1''],
       isInStartingState = starting, startingStateOrder = ord \<rparr>"

definition exampleInterview ::
  "InterviewScreen list \<Rightarrow> SubmissionAction list \<Rightarrow> InterviewWithScreensAndActions" where
  "exampleInterview scrs subs =
     \<lparr> allowedLanguages = [''en''], defaultLanguage = ''en'', description = ''d'',
       interviewName = ''n'', interviewNotes = [], ownerId = ''o'', published = False,
       vanityUrl = None, screens = scrs, submissionActions = subs \<rparr>"

definition exampleAction :: "string \<Rightarrow> ActionTarget \<Rightarrow> bool ConditionalAction" where
  "exampleAction eid tgt =
     \<lparr> ca_id = ''c1'', ca_screenId = ''A'',
       condition = \<lparr> conditionEntryId = eid, operator = True, comparand = ''x'' \<rparr>,
       target = tgt \<rparr>"

text \<open>A comparison for the examples: the operator says whether the answer is to be equal.\<close>

definition exampleComparison :: "ResponseType \<Rightarrow> bool \<Rightarrow> string \<Rightarrow> string \<Rightarrow> bool" where
  "exampleComparison rtype op answer v = (if op then answer = v else answer \<noteq> v)"

text \<open>Example entries for the concrete checks below.\<close>

definition exampleEntry :: "string \<Rightarrow> string \<Rightarrow> InterviewScreenEntry" where
  "exampleEntry i n =
     \<lparr> ise_id = i, ise_name = n, ise_prompt = ''p'', ise_responseId = ''r'',
       ise_responseType = ''text'', ise_screenId = ''s'', ise_text = [] \<rparr>"

section \<open>Properties of getEntryById\<close>

lemma getEntryByIdLoop_None:
  "getEntryByIdLoop eid es = None \<longleftrightarrow> (\<forall>e \<in> set es. ise_id e \<noteq> eid)"
  by (induction es) auto

lemma getEntryByIdLoop_Some:
  "getEntryByIdLoop eid es = Some e \<longleftrightarrow>
     (\<exists>before after. es = before @ e # after \<and> ise_id e = eid
        \<and> (\<forall>b \<in> set before. ise_id b \<noteq> eid))"
proof (induction es)
  case Nil
  then show ?case by simp
next
  case (Cons x xs)
  show ?case
  proof (cases "ise_id x = eid")
    case True
    have "(\<exists>before after. x # xs = before @ e # after \<and> ise_id e = eid
        \<and> (\<forall>b \<in> set before. ise_id b \<noteq> eid)) \<longleftrightarrow> x = e"
    proof
      assume "\<exists>before after. x # xs = before @ e # after \<and> ise_id e = eid
        \<and> (\<forall>b \<in> set before. ise_id b \<noteq> eid)"
      then obtain before after where h: "x # xs = before @ e # after"
        "\<forall>b \<in> set before. ise_id b \<noteq> eid" by blast
      show "x = e"
      proof (cases before)
        case Nil
        with h show ?thesis by simp
      next
        case (Cons b bs)
        with h True show ?thesis by auto
      qed
    next
      assume "x = e"
      with True have "x # xs = [] @ e # xs \<and> ise_id e = eid
        \<and> (\<forall>b \<in> set []. ise_id b \<noteq> eid)" by simp
      then show "\<exists>before after. x # xs = before @ e # after \<and> ise_id e = eid
        \<and> (\<forall>b \<in> set before. ise_id b \<noteq> eid)" by blast
    qed
    with True show ?thesis by auto
  next
    case False
    have "(\<exists>before after. x # xs = before @ e # after \<and> ise_id e = eid
        \<and> (\<forall>b \<in> set before. ise_id b \<noteq> eid)) \<longleftrightarrow>
      (\<exists>before after. xs = before @ e # after \<and> ise_id e = eid
        \<and> (\<forall>b \<in> set before. ise_id b \<noteq> eid))" (is "?L \<longleftrightarrow> ?R")
    proof
      assume ?L
      then obtain before after where h: "x # xs = before @ e # after" "ise_id e = eid"
        "\<forall>b \<in> set before. ise_id b \<noteq> eid" by blast
      show ?R
      proof (cases before)
        case Nil
        with h False show ?thesis by simp
      next
        case (Cons b bs)
        with h have "xs = bs @ e # after \<and> ise_id e = eid
          \<and> (\<forall>b \<in> set bs. ise_id b \<noteq> eid)" by simp
        then show ?thesis by blast
      qed
    next
      assume ?R
      then obtain before after where h: "xs = before @ e # after" "ise_id e = eid"
        "\<forall>b \<in> set before. ise_id b \<noteq> eid" by blast
      with False have "x # xs = (x # before) @ e # after \<and> ise_id e = eid
          \<and> (\<forall>b \<in> set (x # before). ise_id b \<noteq> eid)" by simp
      then show ?L by blast
    qed
    with False Cons.IH show ?thesis by simp
  qed
qed

text \<open>
  C10. \<open>getEntryById\<close> is a total function with no failing branch. Its result is \<open>null\<close>
  exactly when the list is \<open>null\<close> or holds no entry with the given id; and it is an entry
  \<open>e\<close> exactly when the list is present and \<open>e\<close> is the first entry, in list order, whose
  id equals the id asked for.
\<close>

theorem getEntryById_first_or_null:
  "(getEntryById eid entries = None \<longleftrightarrow>
      (entries = None \<or> (\<exists>es. entries = Some es \<and> (\<forall>e \<in> set es. ise_id e \<noteq> eid))))
   \<and> (getEntryById eid entries = Some e \<longleftrightarrow>
      (\<exists>before after. entries = Some (before @ e # after) \<and> ise_id e = eid
         \<and> (\<forall>b \<in> set before. ise_id b \<noteq> eid)))"
proof (cases entries)
  case None
  then show ?thesis by (simp add: getEntryById_def)
next
  case (Some es)
  then show ?thesis
    by (simp add: getEntryById_def getEntryByIdLoop_None getEntryByIdLoop_Some)
qed

theorem getEntryById_first_or_null_witness:
  "getEntryById ''b'' (Some [exampleEntry ''a'' ''first'', exampleEntry ''b'' ''second'',
      exampleEntry ''b'' ''third'']) = Some (exampleEntry ''b'' ''second'')
   \<and> getEntryById ''z'' (Some [exampleEntry ''a'' ''first'']) = None
   \<and> getEntryById ''a'' None = None"
proof -
  let ?a = "exampleEntry ''a'' ''first''" and ?b = "exampleEntry ''b'' ''second''"
    and ?c = "exampleEntry ''b'' ''third''"
  have "Some [?a, ?b, ?c] = Some ([?a] @ ?b # [?c]) \<and> ise_id ?b = ''b''
      \<and> (\<forall>x \<in> set [?a]. ise_id x \<noteq> ''b'')"
    by (simp add: exampleEntry_def)
  then have "\<exists>before after. Some [?a, ?b, ?c] = Some (before @ ?b # after) \<and> ise_id ?b = ''b''
      \<and> (\<forall>x \<in> set before. ise_id x \<noteq> ''b'')"
    by blast
  then have first: "getEntryById ''b'' (Some [?a, ?b, ?c]) = Some ?b"
    using getEntryById_first_or_null [of "''b''" "Some [?a, ?b, ?c]" ?b] by blast
  have "\<exists>es. Some [?a] = Some es \<and> (\<forall>e \<in> set es. ise_id e \<noteq> ''z'')"
    by (simp add: exampleEntry_def)
  then have absent: "getEntryById ''z'' (Some [?a]) = None"
    using getEntryById_first_or_null [of "''z''" "Some [?a]" ?a] by blast
  have null: "getEntryById ''a'' None = None"
    using getEntryById_first_or_null [of "''a''" None ?a] by blast
  from first absent null show ?thesis by blast
qed

section \<open>Properties of the interview serialisation\<close>

lemma splitFrom_no_sep:
  "sep \<notin> set s \<Longrightarrow> splitFrom sep piece s = [rev piece @ s]"
  by (induction s arbitrary: piece) auto

lemma splitFrom_at_sep:
  "sep \<notin> set s \<Longrightarrow>
     splitFrom sep piece (s @ sep # rest) = (rev piece @ s) # splitFrom sep [] rest"
  by (induction s arbitrary: piece) auto

lemma split_join:
  "xs \<noteq> [] \<Longrightarrow> \<forall>s \<in> set xs. sep \<notin> set s \<Longrightarrow> split sep (join sep xs) = xs"
proof (induction sep xs rule: join.induct)
  case (1 sep)
  then show ?case by simp
next
  case (2 sep x)
  then show ?case by (simp add: split_def splitFrom_no_sep)
next
  case (3 sep x y ys)
  then show ?case by (simp add: split_def splitFrom_at_sep)
qed

text \<open>
  C9, as stated, fails for the interview with no allowed language at all: no string of the
  empty list contains the delimiter, the list serialises to the empty string, and the empty
  string deserialises to the list of one empty string.
\<close>

theorem allowedLanguages_roundtrip_empty_counterexample:
  "set (allowedLanguages (newInterview [])) = {}
   \<and> allowedLanguages (deserialize (serialize (newInterview []))) = [[]]
   \<and> allowedLanguages (deserialize (serialize (newInterview [])))
       \<noteq> allowedLanguages (newInterview [])"
  by (simp add: deserialize_def serialize_def newInterview_def split_def)

text \<open>
  C9, amended. For every interview whose \<open>allowedLanguages\<close> list is not empty and holds
  no string with the delimiter \<open>;\<close>, deserialising the serialised interview gives the
  \<open>allowedLanguages\<close> list back unchanged.
\<close>

theorem allowedLanguages_roundtrip:
  assumes "allowedLanguages interview \<noteq> []"
    and "\<forall>s \<in> set (allowedLanguages interview). LANGUAGE_DELIMITER \<notin> set s"
  shows "allowedLanguages (deserialize (serialize interview)) = allowedLanguages interview"
  using assms by (simp add: deserialize_def serialize_def split_join)

theorem allowedLanguages_roundtrip_witness:
  "allowedLanguages (newInterview [''en'', ''es'']) \<noteq> []
   \<and> LANGUAGE_DELIMITER \<notin> set ''en'' \<and> LANGUAGE_DELIMITER \<notin> set ''es''
   \<and> ser_allowedLanguages (serialize (newInterview [''en'', ''es''])) = ''en;es''
   \<and> allowedLanguages (deserialize (serialize (newInterview [''en'', ''es''])))
       = [''en'', ''es'']"
proof -
  let ?i = "newInterview [''en'', ''es'']"
  have h1: "allowedLanguages ?i \<noteq> []"
    by (simp add: newInterview_def)
  have h2: "\<forall>s \<in> set (allowedLanguages ?i). LANGUAGE_DELIMITER \<notin> set s"
    by (simp add: newInterview_def LANGUAGE_DELIMITER_def)
  have "allowedLanguages (deserialize (serialize ?i)) = allowedLanguages ?i"
    using allowedLanguages_roundtrip [OF h1 h2] .
  moreover have "ser_allowedLanguages (serialize ?i) = ''en;es''"
    by (simp add: serialize_def newInterview_def LANGUAGE_DELIMITER_def)
  ultimately show ?thesis using h1 h2 by (simp add: newInterview_def)
qed

section \<open>Properties of the completion of an interview\<close>

subsection \<open>Auxiliary facts\<close>

lemma allEntries_fold_None:
  assumes "\<forall>(k, d) \<in> set responseData. e_id (entry d) \<noteq> eid" and "m eid = None"
  shows "fold (\<lambda>responseKey m.
             case map_of responseData responseKey of
               None \<Rightarrow> m
             | Some datum \<Rightarrow> m(e_id (entry datum) \<mapsto> entry datum)) ks m eid = None"
  using assms(2)
proof (induction ks arbitrary: m)
  case Nil
  then show ?case by simp
next
  case (Cons k ks)
  show ?case
  proof (cases "map_of responseData k")
    case None
    with Cons show ?thesis by simp
  next
    case (Some d)
    then have "(k, d) \<in> set responseData" by (rule map_of_SomeD)
    with assms(1) have "e_id (entry d) \<noteq> eid" by auto
    with Cons Some show ?thesis by simp
  qed
qed

lemma allEntries_unanswered:
  "\<forall>(k, d) \<in> set responseData. e_id (entry d) \<noteq> eid \<Longrightarrow> allEntries responseData eid = None"
  unfolding allEntries_def by (rule allEntries_fold_None) simp_all

lemma allEntries_fold_Some:
  assumes "fold (\<lambda>responseKey m.
             case map_of responseData responseKey of
               None \<Rightarrow> m
             | Some datum \<Rightarrow> m(e_id (entry datum) \<mapsto> entry datum)) ks m eid = Some e"
    and "m eid = Some e \<Longrightarrow> \<exists>(k, d) \<in> set responseData. entry d = e \<and> e_id e = eid"
  shows "\<exists>(k, d) \<in> set responseData. entry d = e \<and> e_id e = eid"
  using assms
proof (induction ks arbitrary: m)
  case Nil
  then show ?case by simp
next
  case (Cons k ks)
  show ?case
  proof (cases "map_of responseData k")
    case None
    with Cons.prems Cons.IH [of m] show ?thesis by simp
  next
    case (Some d)
    then have mem: "(k, d) \<in> set responseData" by (rule map_of_SomeD)
    let ?m = "m(e_id (entry d) \<mapsto> entry d)"
    have step: "fold (\<lambda>responseKey m.
             case map_of responseData responseKey of
               None \<Rightarrow> m
             | Some datum \<Rightarrow> m(e_id (entry datum) \<mapsto> entry datum)) ks ?m eid = Some e"
      using Cons.prems(1) Some by simp
    have "?m eid = Some e \<Longrightarrow> \<exists>(k, d) \<in> set responseData. entry d = e \<and> e_id e = eid"
    proof -
      assume a: "?m eid = Some e"
      show ?thesis
      proof (cases "e_id (entry d) = eid")
        case True
        with a have "entry d = e" by simp
        with True mem show ?thesis by auto
      next
        case False
        with a have "m eid = Some e" by simp
        then show ?thesis by (rule Cons.prems(2))
      qed
    qed
    with step show ?thesis by (rule Cons.IH)
  qed
qed

lemma allEntries_answered:
  "allEntries responseData eid = Some e \<Longrightarrow>
     \<exists>(k, d) \<in> set responseData. entry d = e \<and> e_id e = eid"
  unfolding allEntries_def by (erule allEntries_fold_Some) simp

lemma onInterviewComplete_fold:
  "fold (\<lambda>a issued. issued @ f a) as acc = acc @ concat (map f as)"
  by (induction as arbitrary: acc) simp_all

lemma onInterviewComplete_concat:
  "onInterviewComplete rt (Some i) responseData =
     concat (map (submitAction rt responseData (allEntries responseData)) (submissionActions i))"
  by (simp add: onInterviewComplete_def onInterviewComplete_fold)

lemma collectFields_fold:
  assumes "distinct (map fst ms)"
  shows "fold (\<lambda>(fieldId, entryLookupConfig) fields.
             let responseValue = resolveResponseValue rt responseData es entryLookupConfig
             in if responseValue \<noteq> [] then assignProperty fieldId responseValue fields
                else fields) ms acc k =
     (if k = ''__proto__'' then acc k
      else case map_of ms k of
        None \<Rightarrow> acc k
      | Some cfg \<Rightarrow> if resolveResponseValue rt responseData es cfg = [] then acc k
                    else Some (resolveResponseValue rt responseData es cfg))"
  using assms
proof (induction ms arbitrary: acc)
  case Nil
  then show ?case by simp
next
  case (Cons m ms)
  obtain f c where m: "m = (f, c)" by (cases m)
  from Cons.prems m have d: "distinct (map fst ms)" and nf: "map_of ms f = None"
    by (auto simp: map_of_eq_None_iff)
  show ?case
    using Cons.IH [OF d] nf m
    by (auto simp: Let_def assignProperty_def split: option.splits)
qed

text \<open>
  The payload of a loop over mappings with distinct field ids: under every name but
  \<open>__proto__\<close> it holds the resolved value of the mapping of that name when the value is not
  the empty string, and nothing otherwise; under \<open>__proto__\<close> it holds nothing.
\<close>

lemma collectFields_lookup:
  "distinct (map fst ms) \<Longrightarrow>
   collectFields rt responseData es ms k =
     (if k = ''__proto__'' then None
      else case map_of ms k of
        None \<Rightarrow> None
      | Some cfg \<Rightarrow> if resolveResponseValue rt responseData es cfg = [] then None
                    else Some (resolveResponseValue rt responseData es cfg))"
  unfolding collectFields_def by (subst collectFields_fold) (simp_all split: option.splits)

lemma submitAction_cases:
  "submitAction rt responseData es a = []
   \<or> (\<exists>b t r. submitAction rt responseData es a
         = [AirtableUpdateRecord b t r (collectFields rt responseData es (fieldMappings a))])
   \<or> (\<exists>b t. submitAction rt responseData es a
         = [AirtableCreateRecord b t (collectFields rt responseData es (fieldMappings a))])"
proof (cases "config a")
  case (EDIT_ROW p)
  show ?thesis
  proof (cases "es (payloadEntryId p)")
    case None
    with EDIT_ROW show ?thesis by (simp add: submitAction_def)
  next
    case (Some entryTarget)
    show ?thesis
    proof (cases "truthyString (getResponseValue rt responseData (responseKey entryTarget)
                            (Some (primaryKeyField p)))")
      case None
      with EDIT_ROW Some show ?thesis by (simp add: submitAction_def)
    next
      case (Some r)
      with EDIT_ROW \<open>es (payloadEntryId p) = Some entryTarget\<close> show ?thesis
        by (simp add: submitAction_def)
    qed
  qed
next
  case (INSERT_ROW p)
  then show ?thesis by (simp add: submitAction_def)
qed

lemma submitAction_fields:
  "call \<in> set (submitAction rt responseData es a) \<Longrightarrow>
     fieldsSent call = collectFields rt responseData es (fieldMappings a)"
  using submitAction_cases [of rt responseData es a] by auto

lemma submitAction_length: "length (submitAction rt responseData es a) \<le> 1"
  using submitAction_cases [of rt responseData es a] by auto

lemma settle_fold_issued:
  "issued (fold (\<lambda>k s. case outcome k of
                    None \<Rightarrow> s
                  | Some error \<Rightarrow>
                      if latestOnItsHook calls k then onError raise error s
                      else s) ks st) = issued st"
  by (induction ks arbitrary: st) (simp_all add: onError_def split: option.splits prod.splits)

lemma settle_issued: "issued (settle raise outcome calls st) = issued st"
  unfolding settle_def by (rule settle_fold_issued)

text \<open>
  The calls of a completion, whatever their outcomes: those of each action by itself, in
  the order of the actions, and at most one for an action. Outcomes take no call back and
  add none.
\<close>

lemma completeInterview_issued:
  "issued (completeInterview rt raise outcome (Some i) responseData st) =
     issued st @ concat (map (submitAction rt responseData (allEntries responseData))
                          (submissionActions i))"
  by (simp add: completeInterview_def Let_def settle_issued onInterviewComplete_concat)

subsection \<open>The example values, evaluated\<close>

lemma ex_allEntries_e1:
  "allEntries exampleResponseData ''e1'' = Some (exampleAirtableEntry ''e1'' ''who'')"
  by (simp add: allEntries_def exampleResponseData_def exampleAirtableEntry_def)

lemma ex_allEntries_e9: "allEntries exampleResponseData ''e9'' = None"
  by (simp add: allEntries_def exampleResponseData_def exampleAirtableEntry_def)

lemma ex_resolve_e1:
  "resolveResponseValue exampleRuntime exampleResponseData (allEntries exampleResponseData)
     (lookupEntry ''e1'') = ''rec1''"
proof -
  have g: "getResponseValue exampleRuntime exampleResponseData ''who'' None = Some ''rec1''"
    by (simp add: exampleRuntime_def exampleResponseData_def)
  show ?thesis
    by (simp add: resolveResponseValue_def lookupEntry_def truthyString_def ex_allEntries_e1
          exampleAirtableEntry_def g)
qed

lemma ex_resolve_e9:
  "resolveResponseValue exampleRuntime exampleResponseData (allEntries exampleResponseData)
     (lookupEntry ''e9'') = []"
  by (simp add: resolveResponseValue_def lookupEntry_def truthyString_def ex_allEntries_e9)

lemma ex_resolve_now:
  "resolveResponseValue exampleRuntime exampleResponseData (allEntries exampleResponseData)
     lookupNow = ''1970-01-01T00:00:00.000Z''"
  by (simp add: resolveResponseValue_def lookupNow_def truthyString_def exampleRuntime_def)

lemma ex_insert:
  "submitAction exampleRuntime exampleResponseData (allEntries exampleResponseData) exampleInsert
     = [AirtableCreateRecord ''base2'' ''table2''
          [''fldName'' \<mapsto> ''rec1'', ''fldDate'' \<mapsto> ''1970-01-01T00:00:00.000Z'']]"
  by (simp add: submitAction_def exampleInsert_def collectFields_def exampleMappings_def
        assignProperty_def ex_resolve_e1 ex_resolve_e9 ex_resolve_now)

lemma ex_insert_other:
  "submitAction exampleRuntime exampleResponseData (allEntries exampleResponseData)
     exampleInsertOther
     = [AirtableCreateRecord ''base2'' ''table3'' [''fldName'' \<mapsto> ''rec1'']]"
  by (simp add: submitAction_def exampleInsertOther_def collectFields_def assignProperty_def
        ex_resolve_e1)

lemma ex_edit:
  "submitAction exampleRuntime exampleResponseData (allEntries exampleResponseData)
     (exampleEdit ''e1'')
     = [AirtableUpdateRecord ''base1'' ''table1'' ''rec1''
          [''fldName'' \<mapsto> ''rec1'', ''fldDate'' \<mapsto> ''1970-01-01T00:00:00.000Z'']]"
proof -
  have r: "getResponseValue exampleRuntime exampleResponseData ''who'' (Some ''id'') = Some ''rec1''"
    by (simp add: exampleRuntime_def exampleResponseData_def)
  show ?thesis
    by (simp add: submitAction_def exampleEdit_def collectFields_def exampleMappings_def
          assignProperty_def ex_resolve_e1 ex_resolve_e9 ex_resolve_now ex_allEntries_e1
          exampleAirtableEntry_def r truthyString_def)
qed

lemma ex_two_inserts:
  "onInterviewComplete exampleRuntime
      (Some (exampleInterview [] [exampleInsert, exampleInsertOther])) exampleResponseData
    = [AirtableCreateRecord ''base2'' ''table2''
          [''fldName'' \<mapsto> ''rec1'', ''fldDate'' \<mapsto> ''1970-01-01T00:00:00.000Z''],
       AirtableCreateRecord ''base2'' ''table3'' [''fldName'' \<mapsto> ''rec1'']]"
  by (simp add: onInterviewComplete_concat exampleInterview_def ex_insert ex_insert_other)

subsection \<open>Skipped edits, dropped fields, special values, reports of failures\<close>

text \<open>
  C1. An \<open>EDIT_ROW\<close> action whose target entry is unanswered is passed over without
  error: when every answer recorded for the target entry, if there is one at all, gives no
  record id under the primary key field (\<open>getResponseValue\<close> returns \<open>undefined\<close> or the
  empty string), the round of \<open>forEach\<close> for the action makes no call, neither an update
  nor a create, and the calls of the whole completion are those made without the action.
\<close>

theorem edit_row_unanswered_is_skipped:
  assumes "config a = EDIT_ROW p"
    and "\<forall>(k, d) \<in> set responseData.
           e_id (entry d) = payloadEntryId p \<longrightarrow>
           getResponseValue rt responseData (responseKey (entry d)) (Some (primaryKeyField p))
             \<in> {None, Some []}"
  shows "submitAction rt responseData (allEntries responseData) a = []
    \<and> onInterviewComplete rt (Some (i\<lparr>submissionActions := before @ a # after\<rparr>)) responseData
      = onInterviewComplete rt (Some (i\<lparr>submissionActions := before @ after\<rparr>)) responseData"
proof -
  have "submitAction rt responseData (allEntries responseData) a = []"
  proof (cases "allEntries responseData (payloadEntryId p)")
    case None
    with assms(1) show ?thesis by (simp add: submitAction_def)
  next
    case (Some entryTarget)
    then obtain k d where "(k, d) \<in> set responseData" "entry d = entryTarget"
        "e_id entryTarget = payloadEntryId p"
      using allEntries_answered [OF Some] by auto
    with assms(2) have "getResponseValue rt responseData (responseKey entryTarget)
        (Some (primaryKeyField p)) \<in> {None, Some []}"
      by auto
    then have "truthyString (getResponseValue rt responseData (responseKey entryTarget)
        (Some (primaryKeyField p))) = None"
      by (auto simp: truthyString_def)
    with assms(1) Some show ?thesis by (simp add: submitAction_def)
  qed
  then show ?thesis by (simp add: onInterviewComplete_concat)
qed

theorem edit_row_unanswered_is_skipped_witness:
  "config (exampleEdit ''e9'') = EDIT_ROW \<lparr> payloadEntryId = ''e9'', primaryKeyField = ''id'' \<rparr>
   \<and> map (\<lambda>(k, d). e_id (entry d)) exampleResponseData = [''e1'']
   \<and> submitAction exampleRuntime exampleResponseData (allEntries exampleResponseData)
        (exampleEdit ''e9'') = []
   \<and> onInterviewComplete exampleRuntime
        (Some (exampleInterview [] [exampleInsert, exampleEdit ''e9'', exampleEdit ''e1'']))
        exampleResponseData
      = onInterviewComplete exampleRuntime
        (Some (exampleInterview [] [exampleInsert, exampleEdit ''e1''])) exampleResponseData
   \<and> config (exampleEdit ''e1'') = EDIT_ROW \<lparr> payloadEntryId = ''e1'', primaryKeyField = ''id'' \<rparr>
   \<and> map (\<lambda>(k, d). e_id (entry d)) exampleBlankResponseData = [''e1'']
   \<and> getResponseValue exampleRuntime exampleBlankResponseData ''who'' (Some ''id'') = Some []
   \<and> submitAction exampleRuntime exampleBlankResponseData (allEntries exampleBlankResponseData)
        (exampleEdit ''e1'') = []"
proof -
  let ?p = "\<lparr> payloadEntryId = ''e9'', primaryKeyField = ''id'' \<rparr>"
  let ?q = "\<lparr> payloadEntryId = ''e1'', primaryKeyField = ''id'' \<rparr>"
  have h1: "config (exampleEdit ''e9'') = EDIT_ROW ?p"
    by (simp add: exampleEdit_def)
  have h2: "\<forall>(k, d) \<in> set exampleResponseData.
      e_id (entry d) = payloadEntryId ?p \<longrightarrow>
      getResponseValue exampleRuntime exampleResponseData (responseKey (entry d))
        (Some (primaryKeyField ?p)) \<in> {None, Some []}"
    by (simp add: exampleResponseData_def exampleAirtableEntry_def)
  have ids: "map (\<lambda>(k, d). e_id (entry d)) exampleResponseData = [''e1'']"
    by (simp add: exampleResponseData_def exampleAirtableEntry_def)
  have absent: "submitAction exampleRuntime exampleResponseData (allEntries exampleResponseData)
        (exampleEdit ''e9'') = []
    \<and> onInterviewComplete exampleRuntime
        (Some (exampleInterview [] [exampleInsert, exampleEdit ''e9'', exampleEdit ''e1'']))
        exampleResponseData
      = onInterviewComplete exampleRuntime
        (Some (exampleInterview [] [exampleInsert, exampleEdit ''e1''])) exampleResponseData"
    using edit_row_unanswered_is_skipped [OF h1 h2, where i = "exampleInterview [] []"
        and before = "[exampleInsert]" and after = "[exampleEdit ''e1'']"]
    by (simp add: exampleInterview_def)
  have g1: "config (exampleEdit ''e1'') = EDIT_ROW ?q"
    by (simp add: exampleEdit_def)
  have blank: "getResponseValue exampleRuntime exampleBlankResponseData ''who'' (Some ''id'')
      = Some []"
    by (simp add: exampleRuntime_def exampleBlankResponseData_def)
  have g2: "\<forall>(k, d) \<in> set exampleBlankResponseData.
      e_id (entry d) = payloadEntryId ?q \<longrightarrow>
      getResponseValue exampleRuntime exampleBlankResponseData (responseKey (entry d))
        (Some (primaryKeyField ?q)) \<in> {None, Some []}"
    by (simp add: exampleBlankResponseData_def exampleAirtableEntry_def exampleRuntime_def)
  have ids': "map (\<lambda>(k, d). e_id (entry d)) exampleBlankResponseData = [''e1'']"
    by (simp add: exampleBlankResponseData_def exampleAirtableEntry_def)
  have "submitAction exampleRuntime exampleBlankResponseData
      (allEntries exampleBlankResponseData) (exampleEdit ''e1'') = []"
    using edit_row_unanswered_is_skipped [OF g1 g2] by blast
  with h1 ids absent g1 ids' blank show ?thesis by blast
qed


text \<open>
  C8. A lookup configuration with no \<open>entryId\<close> and a \<open>specialValueType\<close> resolves to
  the instant the clock shows, as \<open>toISOString\<close> formats it, and the special value type
  is \<open>NOW_DATE\<close>, the only one there is.
\<close>

theorem now_date_special_value:
  assumes "truthyString (entryId cfg) = None" and "specialValueType cfg = Some t"
  shows "resolveResponseValue rt responseData es cfg = toISOString rt (currentTime rt)
     \<and> getSpecialValueForSubmission rt t = toISOString rt (currentTime rt)
     \<and> t = NOW_DATE"
  using assms by (cases t) (simp add: resolveResponseValue_def)

theorem now_date_special_value_witness:
  "truthyString (entryId lookupNow) = None \<and> specialValueType lookupNow = Some NOW_DATE
   \<and> resolveResponseValue exampleRuntime exampleResponseData (allEntries exampleResponseData)
        lookupNow = ''1970-01-01T00:00:00.000Z''"
proof -
  have h1: "truthyString (entryId lookupNow) = None"
    by (simp add: lookupNow_def truthyString_def)
  have h2: "specialValueType lookupNow = Some NOW_DATE"
    by (simp add: lookupNow_def)
  show ?thesis
    using h1 h2 now_date_special_value [OF h1 h2, where rt = exampleRuntime and responseData = exampleResponseData
        and es = "allEntries exampleResponseData"]
    by (simp add: exampleRuntime_def)
qed

text \<open>
  C7, at an input where the code departs from it. The interview has two \<open>INSERT_ROW\<close>
  actions; the call of the first fails and the call of the second succeeds. Both calls are
  made, but the two go through the one hook of \<open>airtableCreateRecord\<close>, so the handler of
  the first is never run: no toast is raised and \<open>errorOnComplete\<close> stays unset. The failure
  of the first action is not reported.
\<close>

theorem earlier_failed_insert_is_not_reported:
  "issued (completeInterview exampleRuntime (\<lambda>e. (e, ''Error''))
      (\<lambda>k. if k = 0 then Some ''HTTP 500'' else None)
      (Some (exampleInterview [] [exampleInsert, exampleInsertOther]))
      exampleResponseData \<lparr> issued = [], toasts = [], errorOnComplete = None \<rparr>)
    = [AirtableCreateRecord ''base2'' ''table2''
          [''fldName'' \<mapsto> ''rec1'', ''fldDate'' \<mapsto> ''1970-01-01T00:00:00.000Z''],
       AirtableCreateRecord ''base2'' ''table3'' [''fldName'' \<mapsto> ''rec1'']]
   \<and> toasts (completeInterview exampleRuntime (\<lambda>e. (e, ''Error''))
      (\<lambda>k. if k = 0 then Some ''HTTP 500'' else None)
      (Some (exampleInterview [] [exampleInsert, exampleInsertOther]))
      exampleResponseData \<lparr> issued = [], toasts = [], errorOnComplete = None \<rparr>) = []
   \<and> errorOnComplete (completeInterview exampleRuntime (\<lambda>e. (e, ''Error''))
      (\<lambda>k. if k = 0 then Some ''HTTP 500'' else None)
      (Some (exampleInterview [] [exampleInsert, exampleInsertOther]))
      exampleResponseData \<lparr> issued = [], toasts = [], errorOnComplete = None \<rparr>) = None"
proof -
  have u: "[0 ..< 2] = [0, Suc 0]" by (simp add: upt_rec)
  show ?thesis
    by (simp add: completeInterview_def Let_def ex_two_inserts settle_def u
          latestOnItsHook_def)
qed

text \<open>
  The same two actions with the second call failing instead: its handler runs, and the one
  failure is reported.
\<close>

lemma latest_failed_insert_is_reported:
  "toasts (completeInterview exampleRuntime (\<lambda>e. (e, ''Error''))
      (\<lambda>k. if k = 1 then Some ''HTTP 500'' else None)
      (Some (exampleInterview [] [exampleInsert, exampleInsertOther]))
      exampleResponseData \<lparr> issued = [], toasts = [], errorOnComplete = None \<rparr>)
    = [(''Error'', ''HTTP 500'')]"
proof -
  have u: "[0 ..< 2] = [0, Suc 0]" by (simp add: upt_rec)
  show ?thesis
    by (simp add: completeInterview_def Let_def ex_two_inserts settle_def u
          latestOnItsHook_def onError_def)
qed

section \<open>Properties of the flow engine\<close>

lemma recordedAnswer_unanswered:
  "\<forall>(k, d) \<in> set acc. e_id (entry d) \<noteq> eid \<Longrightarrow> recordedAnswer acc eid = None"
  by (auto simp: recordedAnswer_def find_None_iff)

lemma sequenceAfter_index:
  "distinct (map s_id scrs) \<Longrightarrow> i < length scrs \<Longrightarrow>
     sequenceAfter scrs (s_id (scrs ! i)) =
       (if Suc i < length scrs then AtScreen (s_id (scrs ! Suc i)) else TERMINAL)"
proof (induction scrs "s_id (scrs ! i)" arbitrary: i rule: sequenceAfter.induct)
  case 1
  then show ?case by simp
next
  case (2 x)
  then show ?case by simp
next
  case (3 x y rest)
  show ?case
  proof (cases i)
    case 0
    then show ?thesis by simp
  next
    case (Suc j)
    from "3.prems" Suc have "(y # rest) ! j \<in> set (y # rest)"
      by (intro nth_mem) simp
    moreover from "3.prems" have "s_id x \<notin> s_id ` set (y # rest)"
      by simp
    ultimately have ne: "s_id x \<noteq> s_id ((x # y # rest) ! i)"
      using Suc by (metis image_eqI nth_Cons_Suc)
    have d: "distinct (map s_id (y # rest))" and j: "j < length (y # rest)"
      using "3.prems" Suc by simp_all
    have eq: "s_id ((x # y # rest) ! i) = s_id ((y # rest) ! j)"
      using Suc by simp
    have "sequenceAfter (y # rest) (s_id ((y # rest) ! j)) =
       (if Suc j < length (y # rest) then AtScreen (s_id ((y # rest) ! Suc j)) else TERMINAL)"
      using "3.hyps" [of j] ne d j eq by simp
    with ne Suc eq show ?thesis by simp
  qed
qed

lemma getStartingScreens_set:
  "set (getStartingScreens interview) =
     {s \<in> set (screens interview). isInStartingState s \<and> startingStateOrder s \<noteq> None}"
  by (auto simp: getStartingScreens_def)

lemma getStartingScreens_sorted:
  "sorted (map (\<lambda>scr. - orderOrZero scr) (getStartingScreens interview))"
  by (simp add: getStartingScreens_def)

lemma ex_actionsOfScreen:
  "actionsOfScreen [exampleAction eid tgt] (exampleScreen i st ord) = [exampleAction eid tgt]"
  by (simp add: actionsOfScreen_def exampleScreen_def exampleAction_def List.map_filter_simps)

lemma ex_no_match:
  "\<not> matches exampleComparison (condition (exampleAction ''e9'' tgt)) exampleResponseData"
  by (simp add: matches_def recordedAnswer_def exampleResponseData_def exampleAirtableEntry_def
        exampleAction_def)

text \<open>
  C5. A condition on an entry that has no answer in the accumulator does not match,
  whatever the comparison, the operator and the response types: \<open>matches\<close> returns
  \<open>False\<close>, and being a total function it has no error to raise.
\<close>

theorem unanswered_condition_never_matches:
  assumes "\<forall>(k, d) \<in> set acc. e_id (entry d) \<noteq> conditionEntryId cond"
  shows "matches comparison cond acc = False"
  using recordedAnswer_unanswered [OF assms] by (simp add: matches_def)

theorem unanswered_condition_never_matches_witness:
  "map (\<lambda>(k, d). e_id (entry d)) exampleResponseData = [''e1'']
   \<and> conditionEntryId (condition (exampleAction ''e9'' EndInterview)) = ''e9''
   \<and> \<not> matches exampleComparison (condition (exampleAction ''e9'' EndInterview))
         exampleResponseData
   \<and> \<not> matches (\<lambda>rtype op answer v. True) (condition (exampleAction ''e9'' EndInterview))
         exampleResponseData"
proof -
  let ?c = "condition (exampleAction ''e9'' EndInterview)"
  have h: "\<forall>(k, d) \<in> set exampleResponseData. e_id (entry d) \<noteq> conditionEntryId ?c"
    by (simp add: exampleResponseData_def exampleAirtableEntry_def exampleAction_def)
  have ids: "map (\<lambda>(k, d). e_id (entry d)) exampleResponseData = [''e1'']"
    by (simp add: exampleResponseData_def exampleAirtableEntry_def)
  have c: "conditionEntryId ?c = ''e9''"
    by (simp add: exampleAction_def)
  show ?thesis
    using ids c unanswered_condition_never_matches [OF h, where comparison = exampleComparison]
      unanswered_condition_never_matches [OF h, where comparison = "\<lambda>rtype op answer v. True"]
    by blast
qed

text \<open>
  C6. On a screen none of whose conditional actions match, the next state is the screen
  that follows it in the order the screens were supplied, and \<open>TERMINAL\<close> when it is the last
  one. The screens have distinct ids.
\<close>

theorem next_screen_default_fallback:
  assumes "distinct (map s_id scrs)" and "i < length scrs"
    and "\<forall>a \<in> set (actionsOfScreen actions (scrs ! i)). \<not> matches comparison (condition a) acc"
  shows "nextScreen comparison scrs actions (scrs ! i) acc =
           (if Suc i < length scrs then AtScreen (s_id (scrs ! Suc i)) else TERMINAL)"
proof -
  have "find (\<lambda>a. matches comparison (condition a) acc) (actionsOfScreen actions (scrs ! i)) = None"
    using assms(3) by (simp add: find_None_iff)
  then show ?thesis
    using sequenceAfter_index [OF assms(1) assms(2)] by (simp add: nextScreen_def)
qed

theorem next_screen_default_fallback_witness:
  "distinct (map s_id [exampleScreen ''S'' True (Some 1), exampleScreen ''T'' False None])
   \<and> nextScreen exampleComparison
        [exampleScreen ''S'' True (Some 1), exampleScreen ''T'' False None]
        [exampleAction ''e9'' EndInterview] (exampleScreen ''S'' True (Some 1))
        exampleResponseData = AtScreen ''T''
   \<and> nextScreen exampleComparison
        [exampleScreen ''S'' True (Some 1), exampleScreen ''T'' False None]
        [exampleAction ''e9'' EndInterview] (exampleScreen ''T'' False None)
        exampleResponseData = TERMINAL"
proof -
  let ?S = "exampleScreen ''S'' True (Some 1)" and ?T = "exampleScreen ''T'' False None"
  let ?acts = "[exampleAction ''e9'' EndInterview]"
  have d: "distinct (map s_id [?S, ?T])"
    by (simp add: exampleScreen_def)
  have i0: "0 < length [?S, ?T]" and i1: "Suc 0 < length [?S, ?T]"
    by simp_all
  have n0: "\<forall>a \<in> set (actionsOfScreen ?acts ([?S, ?T] ! 0)).
      \<not> matches exampleComparison (condition a) exampleResponseData"
    by (simp add: ex_actionsOfScreen ex_no_match)
  have n1: "\<forall>a \<in> set (actionsOfScreen ?acts ([?S, ?T] ! Suc 0)).
      \<not> matches exampleComparison (condition a) exampleResponseData"
    by (simp add: ex_actionsOfScreen ex_no_match)
  have "nextScreen exampleComparison [?S, ?T] ?acts ?S exampleResponseData = AtScreen ''T''"
    using next_screen_default_fallback [OF d i0 n0] by (simp add: exampleScreen_def)
  moreover have "nextScreen exampleComparison [?S, ?T] ?acts ?T exampleResponseData = TERMINAL"
    using next_screen_default_fallback [OF d i1 n1] by simp
  ultimately show ?thesis using d by blast
qed

text \<open>
  C3. When a conditional action or a submission action refers to an entry id that is not
  among the entries of the supplied screens, the construction of the engine fails with the
  configuration error for such a reference, so does the run, and no screen is presented.
\<close>

theorem dangling_entry_reference_fails_construction:
  assumes "r \<in> set (referencedEntryIds actions (submissionActions interview))"
    and "r \<notin> set (screenEntryIds (screens interview))"
  shows "\<exists>r'. r' \<in> set (referencedEntryIds actions (submissionActions interview))
           \<and> r' \<notin> set (screenEntryIds (screens interview))
           \<and> (construct interview actions :: ConfigurationError + ('op, 'v) Engine)
                = Inl (DanglingEntryReference r')
           \<and> (runInterview interview actions :: ConfigurationError + ('op, 'v) Engine)
                = Inl (DanglingEntryReference r')
           \<and> presentedScreens
                (runInterview interview actions :: ConfigurationError + ('op, 'v) Engine) = []"
proof -
  let ?P = "\<lambda>eid. eid \<notin> set (screenEntryIds (screens interview))"
  let ?refs = "referencedEntryIds actions (submissionActions interview)"
  from assms have "find ?P ?refs \<noteq> None"
    by (auto simp: find_None_iff)
  then obtain r' where f: "find ?P ?refs = Some r'" by blast
  then have "r' \<in> set ?refs" "?P r'"
    by (auto simp: find_Some_iff)
  moreover from f have "(construct interview actions :: ConfigurationError + ('op, 'v) Engine)
      = Inl (DanglingEntryReference r')"
    by (simp add: construct_def)
  ultimately show ?thesis
    by (auto simp: runInterview_def presentedScreens_def)
qed

theorem dangling_entry_reference_fails_construction_witness:
  "''e9'' \<in> set (referencedEntryIds ([] :: bool ConditionalAction list)
       (submissionActions (exampleInterview [exampleScreen ''A'' True (Some 1)]
          [exampleEdit ''e9''])))
   \<and> ''e9'' \<notin> set (screenEntryIds
       (screens (exampleInterview [exampleScreen ''A'' True (Some 1)] [exampleEdit ''e9''])))
   \<and> (runInterview (exampleInterview [exampleScreen ''A'' True (Some 1)] [exampleEdit ''e9''])
        [] :: ConfigurationError + (bool, string) Engine) = Inl (DanglingEntryReference ''e9'')
   \<and> presentedScreens
       (runInterview (exampleInterview [exampleScreen ''A'' True (Some 1)] [exampleEdit ''e9''])
        [] :: ConfigurationError + (bool, string) Engine) = []"
proof -
  let ?i = "exampleInterview [exampleScreen ''A'' True (Some 1)] [exampleEdit ''e9'']"
  let ?refs = "referencedEntryIds ([] :: bool ConditionalAction list) (submissionActions ?i)"
  have refs: "?refs = [''e9'', ''e1'', ''e9'']"
    by (simp add: referencedEntryIds_def submissionEntryRefs_def exampleInterview_def
          exampleEdit_def exampleMappings_def lookupEntry_def lookupNow_def truthyString_def
          List.map_filter_simps)
  have ids: "screenEntryIds (screens ?i) = [''e1'']"
    by (simp add: screenEntryIds_def exampleInterview_def exampleScreen_def)
  have h1: "''e9'' \<in> set ?refs" by (simp add: refs)
  have h2: "''e9'' \<notin> set (screenEntryIds (screens ?i))" by (simp add: ids)
  obtain r where r: "r \<in> set ?refs" "r \<notin> set (screenEntryIds (screens ?i))"
    "(runInterview ?i [] :: ConfigurationError + (bool, string) Engine)
       = Inl (DanglingEntryReference r)"
    "presentedScreens (runInterview ?i [] :: ConfigurationError + (bool, string) Engine) = []"
    using dangling_entry_reference_fails_construction [OF h1 h2] by blast
  from r(1,2) have "r = ''e9''" by (auto simp: refs ids)
  with r h1 h2 show ?thesis by simp
qed

text \<open>
  C4, as stated, fails for a screen that is in the starting state and has no
  starting-state order: \<open>getStartingScreens\<close> keeps the screens whose order is defined
  only, so this screen set has a screen with \<open>isInStartingState = true\<close> and yet no
  initial screen.
\<close>

theorem starting_screen_without_order_counterexample:
  "isInStartingState (exampleScreen ''A'' True None)
   \<and> exampleScreen ''A'' True None
       \<in> set (screens (exampleInterview [exampleScreen ''A'' True None] []))
   \<and> selectInitialScreen (exampleInterview [exampleScreen ''A'' True None] [])
       = Inl NoStartingScreen"
  by (simp add: selectInitialScreen_def getStartingScreens_def exampleInterview_def
        exampleScreen_def)

text \<open>
  C4, amended. When some screen is in the starting state and has a starting-state order,
  the initial screen is a screen in the starting state whose order is defined and is the
  highest: no such screen has a higher one. When no screen is in the starting state with a
  defined order, the selection fails with the configuration error \<open>NoStartingScreen\<close>, the
  run ends in a configuration error, and no screen is presented.
\<close>

theorem initial_screen_has_highest_order:
  "(s \<in> set (screens interview) \<and> isInStartingState s \<and> startingStateOrder s = Some n \<longrightarrow>
      (\<exists>s0 n0. selectInitialScreen interview = Inr s0 \<and> s0 \<in> set (screens interview)
         \<and> isInStartingState s0 \<and> startingStateOrder s0 = Some n0 \<and> n \<le> n0))
   \<and> ((\<forall>s' \<in> set (screens interview).
          \<not> (isInStartingState s' \<and> startingStateOrder s' \<noteq> None)) \<longrightarrow>
        selectInitialScreen interview = Inl NoStartingScreen
        \<and> isl (runInterview interview actions :: ConfigurationError + ('op, 'v) Engine)
        \<and> presentedScreens
             (runInterview interview actions :: ConfigurationError + ('op, 'v) Engine) = [])"
proof (intro conjI impI)
  assume a: "s \<in> set (screens interview) \<and> isInStartingState s \<and> startingStateOrder s = Some n"
  then have sin: "s \<in> set (getStartingScreens interview)"
    by (simp add: getStartingScreens_set)
  then obtain s0 rest where g: "getStartingScreens interview = s0 # rest"
    by (cases "getStartingScreens interview") auto
  have "s0 \<in> set (getStartingScreens interview)" using g by simp
  then have s0: "s0 \<in> set (screens interview)" "isInStartingState s0"
      "startingStateOrder s0 \<noteq> None"
    by (simp_all add: getStartingScreens_set)
  then obtain n0 where n0: "startingStateOrder s0 = Some n0" by blast
  have "sorted (map (\<lambda>scr. - orderOrZero scr) (s0 # rest))"
    using getStartingScreens_sorted [of interview] g by simp
  then have "\<forall>x \<in> set (s0 # rest). - orderOrZero s0 \<le> - orderOrZero x"
    by auto
  with sin g have "orderOrZero s \<le> orderOrZero s0" by auto
  with a n0 have "n \<le> n0" by (simp add: orderOrZero_def)
  with g s0 n0 show "\<exists>s0 n0. selectInitialScreen interview = Inr s0 \<and> s0 \<in> set (screens interview)
         \<and> isInStartingState s0 \<and> startingStateOrder s0 = Some n0 \<and> n \<le> n0"
    by (simp add: selectInitialScreen_def)
next
  assume "\<forall>s' \<in> set (screens interview).
          \<not> (isInStartingState s' \<and> startingStateOrder s' \<noteq> None)"
  then have "set (getStartingScreens interview) = {}"
    by (auto simp: getStartingScreens_set)
  then show sel: "selectInitialScreen interview = Inl NoStartingScreen"
    by (simp add: selectInitialScreen_def)
  then have "isl (construct interview actions :: ConfigurationError + ('op, 'v) Engine)"
    by (simp add: construct_def split: option.split)
  then show "isl (runInterview interview actions :: ConfigurationError + ('op, 'v) Engine)"
    and "presentedScreens
      (runInterview interview actions :: ConfigurationError + ('op, 'v) Engine) = []"
    by (auto simp: runInterview_def presentedScreens_def split: sum.splits)
qed

theorem initial_screen_has_highest_order_witness:
  "exampleScreen ''B'' True (Some 2)
     \<in> set (screens (exampleInterview
          [exampleScreen ''A'' True (Some 1), exampleScreen ''B'' True (Some 2)] []))
   \<and> isInStartingState (exampleScreen ''B'' True (Some 2))
   \<and> startingStateOrder (exampleScreen ''B'' True (Some 2)) = Some 2
   \<and> selectInitialScreen (exampleInterview
          [exampleScreen ''A'' True (Some 1), exampleScreen ''B'' True (Some 2)] [])
       = Inr (exampleScreen ''B'' True (Some 2))
   \<and> screens (exampleInterview [exampleScreen ''A'' False (Some 1)] [])
       = [exampleScreen ''A'' False (Some 1)]
   \<and> \<not> isInStartingState (exampleScreen ''A'' False (Some 1))
   \<and> selectInitialScreen (exampleInterview [exampleScreen ''A'' False (Some 1)] [])
       = Inl NoStartingScreen"
proof -
  let ?A = "exampleScreen ''A'' True (Some 1)" and ?B = "exampleScreen ''B'' True (Some 2)"
  let ?i = "exampleInterview [?A, ?B] []"
  let ?j = "exampleInterview [exampleScreen ''A'' False (Some 1)] []"
  have h: "?B \<in> set (screens ?i) \<and> isInStartingState ?B \<and> startingStateOrder ?B = Some 2"
    by (simp add: exampleInterview_def exampleScreen_def)
  then obtain s0 n0 where s0: "selectInitialScreen ?i = Inr s0" "s0 \<in> set (screens ?i)"
      "startingStateOrder s0 = Some n0" "2 \<le> n0"
    using initial_screen_has_highest_order [where interview = ?i and s = ?B and n = 2]
    by blast
  from s0(2,3,4) have "s0 = ?B"
    by (auto simp: exampleInterview_def exampleScreen_def)
  with s0(1) have first: "selectInitialScreen ?i = Inr ?B" by simp
  have none: "\<forall>s' \<in> set (screens ?j). \<not> (isInStartingState s' \<and> startingStateOrder s' \<noteq> None)"
    by (simp add: exampleInterview_def exampleScreen_def)
  then have "selectInitialScreen ?j = Inl NoStartingScreen"
    using initial_screen_has_highest_order [where interview = ?j] by blast
  moreover have "screens ?j = [exampleScreen ''A'' False (Some 1)]"
    "\<not> isInStartingState (exampleScreen ''A'' False (Some 1))"
    by (simp_all add: exampleInterview_def exampleScreen_def)
  ultimately show ?thesis using h first by blast
qed

end
